theory Spec2Isabelle
  imports Main "HOL-Library.Word" "HOL-Library.Signed_Division"
begin

unbundle bit_operations_syntax

section \<open>C integers\<close>

text \<open>
  The library is C on a platform with 32-bit \<^verbatim>\<open>int\<close> and 16-bit
  \<^verbatim>\<open>unsigned short\<close>. Values of type \<^verbatim>\<open>int\<close> are 32-bit words read in two's
  complement; \<^verbatim>\<open>/\<close> on them truncates towards zero.
\<close>

type_synonym c_int = "32 word"
type_synonym c_ushort = "16 word"

definition c_div :: "c_int \<Rightarrow> c_int \<Rightarrow> c_int" where
  "c_div a b = word_of_int (sint a sdiv sint b)"

section \<open>Macros and constant tables of lib\_i2cadc.c\<close>

text \<open>\<^verbatim>\<open>#define SWAP_WORD(x) (((x >> 8) & 0xFF) | ((x << 8) & 0xFF00))\<close>, on an
  \<^verbatim>\<open>int\<close> argument: \<^verbatim>\<open>>>\<close> is the arithmetic shift.\<close>

definition SWAP_WORD :: "c_int \<Rightarrow> c_int" where
  "SWAP_WORD x = ((signed_drop_bit 8 x) AND 0xFF) OR ((push_bit 8 x) AND 0xFF00)"

definition ADC_REF_VOLTAGE :: c_int where
  "ADC_REF_VOLTAGE = 5"

definition ADC_WEIGHT_uV :: c_int where
  "ADC_WEIGHT_uV = c_div (ADC_REF_VOLTAGE * 1000000) 4096"


text \<open>The anonymous \<^verbatim>\<open>enum\<close> of chip indices; \<^verbatim>\<open>NOT_USED\<close> marks a header pin
  that is wired to no ADC.\<close>

abbreviation (input) CHIP_ADC0 :: nat where "CHIP_ADC0 \<equiv> 0"
abbreviation (input) CHIP_ADC1 :: nat where "CHIP_ADC1 \<equiv> 1"
abbreviation (input) CHIP_ADC2 :: nat where "CHIP_ADC2 \<equiv> 2"
abbreviation (input) CHIP_ADC3 :: nat where "CHIP_ADC3 \<equiv> 3"
abbreviation (input) CHIP_ADC4 :: nat where "CHIP_ADC4 \<equiv> 4"
abbreviation (input) CHIP_ADC5 :: nat where "CHIP_ADC5 \<equiv> 5"
abbreviation (input) NOT_USED :: nat where "NOT_USED \<equiv> 6"

text \<open>I2C addresses of the six LTC2309 chips, and the channel register bytes.\<close>

definition ADC_I2C_ADDR :: "nat list" where
  "ADC_I2C_ADDR = [0x08, 0x09, 0x0A, 0x0B, 0x18, 0x19]"

definition ADC_CH_ADDR :: "nat list" where
  "ADC_CH_ADDR = [0x88, 0xC8, 0x98, 0xD8, 0xA8, 0xE8, 0xB8, 0xF8]"

text \<open>\<^verbatim>\<open>struct pin_info\<close>; the three \<^verbatim>\<open>unsigned char\<close> fields are natural
  numbers, all table entries being below 256.\<close>

record pin_info =
  name :: string
  pin_num :: nat
  adc_idx :: nat
  ch_idx :: nat

abbreviation (input) pin :: "string \<Rightarrow> nat \<Rightarrow> nat \<Rightarrow> nat \<Rightarrow> pin_info" where
  "pin n p a c \<equiv> \<lparr>name = n, pin_num = p, adc_idx = a, ch_idx = c\<rparr>"

definition HEADER_CON1 :: "pin_info list" where
  "HEADER_CON1 =
    [pin ''CON1.0'' 0 NOT_USED 0,
     pin ''CON1.1'' 1 CHIP_ADC0 0,
     pin ''CON1.2'' 2 CHIP_ADC0 1,
     pin ''CON1.3'' 3 CHIP_ADC1 0,
     pin ''CON1.4'' 4 CHIP_ADC0 2,
     pin ''CON1.5'' 5 CHIP_ADC1 1,
     pin ''CON1.6'' 6 NOT_USED 0,
     pin ''CON1.7'' 7 CHIP_ADC1 2,
     pin ''CON1.8'' 8 CHIP_ADC1 3,
     pin ''CON1.9'' 9 NOT_USED 0,
     pin ''CON1.10'' 10 CHIP_ADC1 4,
     pin ''CON1.11'' 11 CHIP_ADC1 5,
     pin ''CON1.12'' 12 CHIP_ADC1 6,
     pin ''CON1.13'' 13 CHIP_ADC1 7,
     pin ''CON1.14'' 14 NOT_USED 0,
     pin ''CON1.15'' 15 CHIP_ADC2 0,
     pin ''CON1.16'' 16 CHIP_ADC2 1,
     pin ''CON1.17'' 17 CHIP_ADC0 3,
     pin ''CON1.18'' 18 CHIP_ADC2 2,
     pin ''CON1.19'' 19 CHIP_ADC2 3,
     pin ''CON1.20'' 20 NOT_USED 0,
     pin ''CON1.21'' 21 CHIP_ADC2 4,
     pin ''CON1.22'' 22 CHIP_ADC2 5,
     pin ''CON1.23'' 23 CHIP_ADC2 6,
     pin ''CON1.24'' 24 CHIP_ADC2 7,
     pin ''CON1.25'' 25 NOT_USED 0,
     pin ''CON1.26'' 26 CHIP_ADC3 0,
     pin ''CON1.27'' 27 CHIP_ADC3 1,
     pin ''CON1.28'' 28 CHIP_ADC3 2,
     pin ''CON1.29'' 29 CHIP_ADC3 3,
     pin ''CON1.30'' 30 NOT_USED 0,
     pin ''CON1.31'' 31 CHIP_ADC3 4,
     pin ''CON1.32'' 32 CHIP_ADC3 5,
     pin ''CON1.33'' 33 CHIP_ADC3 6,
     pin ''CON1.34'' 34 NOT_USED 0,
     pin ''CON1.35'' 35 CHIP_ADC3 7,
     pin ''CON1.36'' 36 CHIP_ADC4 0,
     pin ''CON1.37'' 37 NOT_USED 0,
     pin ''CON1.38'' 38 CHIP_ADC0 4,
     pin ''CON1.39'' 39 NOT_USED 0,
     pin ''CON1.40'' 40 NOT_USED 0]"

definition HEADER_P3 :: "pin_info list" where
  "HEADER_P3 =
    [pin ''P3.0'' 0 NOT_USED 0,
     pin ''P3.1'' 1 NOT_USED 0,
     pin ''P3.2'' 2 CHIP_ADC5 0,
     pin ''P3.3'' 3 CHIP_ADC5 1,
     pin ''P3.4'' 4 NOT_USED 0,
     pin ''P3.5'' 5 CHIP_ADC5 2,
     pin ''P3.6'' 6 CHIP_ADC5 3,
     pin ''P3.7'' 7 NOT_USED 0,
     pin ''P3.8'' 8 CHIP_ADC5 4,
     pin ''P3.9'' 9 CHIP_ADC5 5,
     pin ''P3.10'' 10 NOT_USED 0]"

definition HEADER_P13 :: "pin_info list" where
  "HEADER_P13 =
    [pin ''P13.0'' 0 NOT_USED 0,
     pin ''P13.1'' 1 NOT_USED 0,
     pin ''P13.2'' 2 CHIP_ADC4 1,
     pin ''P13.3'' 3 CHIP_ADC0 5,
     pin ''P13.4'' 4 CHIP_ADC4 2,
     pin ''P13.5'' 5 CHIP_ADC4 3,
     pin ''P13.6'' 6 CHIP_ADC4 4,
     pin ''P13.7'' 7 CHIP_ADC4 5]"

definition HEADER_P1_1 :: "pin_info list" where
  "HEADER_P1_1 =
    [pin ''P1_1.0'' 0 NOT_USED 0,
     pin ''P1_1.1'' 1 CHIP_ADC0 7,
     pin ''P1_1.2'' 2 CHIP_ADC0 6,
     pin ''P1_1.3'' 3 CHIP_ADC0 5,
     pin ''P1_1.4'' 4 CHIP_ADC0 4,
     pin ''P1_1.5'' 5 CHIP_ADC0 3,
     pin ''P1_1.6'' 6 CHIP_ADC0 2,
     pin ''P1_1.7'' 7 CHIP_ADC0 1,
     pin ''P1_1.8'' 8 CHIP_ADC0 0]"

definition HEADER_P1_2 :: "pin_info list" where
  "HEADER_P1_2 =
    [pin ''P1_2.0'' 0 NOT_USED 0,
     pin ''P1_2.1'' 1 CHIP_ADC1 7,
     pin ''P1_2.2'' 2 CHIP_ADC1 6,
     pin ''P1_2.3'' 3 CHIP_ADC1 5,
     pin ''P1_2.4'' 4 CHIP_ADC1 4,
     pin ''P1_2.5'' 5 CHIP_ADC1 3,
     pin ''P1_2.6'' 6 CHIP_ADC1 2,
     pin ''P1_2.7'' 7 CHIP_ADC1 1,
     pin ''P1_2.8'' 8 CHIP_ADC1 0]"

definition HEADER_P1_3 :: "pin_info list" where
  "HEADER_P1_3 =
    [pin ''P1_3.0'' 0 NOT_USED 0,
     pin ''P1_3.1'' 1 CHIP_ADC2 7,
     pin ''P1_3.2'' 2 CHIP_ADC2 6,
     pin ''P1_3.3'' 3 CHIP_ADC2 5,
     pin ''P1_3.4'' 4 CHIP_ADC2 4,
     pin ''P1_3.5'' 5 CHIP_ADC2 3,
     pin ''P1_3.6'' 6 CHIP_ADC2 2,
     pin ''P1_3.7'' 7 CHIP_ADC2 1,
     pin ''P1_3.8'' 8 CHIP_ADC2 0]"

definition HEADER_P1_4 :: "pin_info list" where
  "HEADER_P1_4 =
    [pin ''P1_4.0'' 0 NOT_USED 0,
     pin ''P1_4.1'' 1 CHIP_ADC3 7,
     pin ''P1_4.2'' 2 CHIP_ADC3 6,
     pin ''P1_4.3'' 3 CHIP_ADC3 5,
     pin ''P1_4.4'' 4 CHIP_ADC3 4,
     pin ''P1_4.5'' 5 CHIP_ADC3 3,
     pin ''P1_4.6'' 6 CHIP_ADC3 2,
     pin ''P1_4.7'' 7 CHIP_ADC3 1,
     pin ''P1_4.8'' 8 CHIP_ADC3 0]"

definition HEADER_P1_5 :: "pin_info list" where
  "HEADER_P1_5 =
    [pin ''P1_5.0'' 0 NOT_USED 0,
     pin ''P1_5.1'' 1 CHIP_ADC4 7,
     pin ''P1_5.2'' 2 CHIP_ADC4 6,
     pin ''P1_5.3'' 3 CHIP_ADC4 5,
     pin ''P1_5.4'' 4 CHIP_ADC4 4,
     pin ''P1_5.5'' 5 CHIP_ADC4 3,
     pin ''P1_5.6'' 6 CHIP_ADC4 2,
     pin ''P1_5.7'' 7 CHIP_ADC4 1,
     pin ''P1_5.8'' 8 CHIP_ADC4 0]"

definition HEADER_P1_6 :: "pin_info list" where
  "HEADER_P1_6 =
    [pin ''P1_6.0'' 0 NOT_USED 0,
     pin ''P1_6.1'' 1 CHIP_ADC5 7,
     pin ''P1_6.2'' 2 CHIP_ADC5 6,
     pin ''P1_6.3'' 3 CHIP_ADC5 5,
     pin ''P1_6.4'' 4 CHIP_ADC5 4,
     pin ''P1_6.5'' 5 CHIP_ADC5 3,
     pin ''P1_6.6'' 6 CHIP_ADC5 2,
     pin ''P1_6.7'' 7 CHIP_ADC5 1,
     pin ''P1_6.8'' 8 CHIP_ADC5 0]"

section \<open>Conversion to millivolts\<close>

text \<open>\<^verbatim>\<open>static int convert_to_mv (unsigned short adc_value)\<close>: the argument is
  promoted to \<^verbatim>\<open>int\<close> before the multiplication.\<close>

definition convert_to_mv :: "c_ushort \<Rightarrow> c_int" where
  "convert_to_mv adc_value =
     (let volt = (ucast adc_value :: c_int) * ADC_WEIGHT_uV
      in c_div volt 1000)"

text \<open>Lines 291 and 292 of \<^verbatim>\<open>read_pin\<close>: a negative bus result is replaced by 0,
  then the word is swapped, shifted and masked.\<close>

definition conversion_code :: "c_int \<Rightarrow> c_int" where
  "conversion_code read_val =
     (let read_val = (if read_val <s 0 then 0 else read_val)
      in (signed_drop_bit 4 (SWAP_WORD read_val)) AND 0xFFF)"

text \<open>The specification's reading of the same step, on a 16-bit word: exchange the
  high and the low byte, shift right by 4, keep 12 bits.\<close>

definition spec_swap_bytes :: "16 word \<Rightarrow> 16 word" where
  "spec_swap_bytes w = word_cat (ucast w :: 8 word) (ucast (drop_bit 8 w) :: 8 word)"

definition spec_conversion_code :: "16 word \<Rightarrow> 16 word" where
  "spec_conversion_code w = (drop_bit 4 (spec_swap_bytes w)) AND 0xFFF"


section \<open>The C library functions the code calls\<close>

text \<open>
  A C string is modelled by the list of its characters before the terminating NUL;
  \<^verbatim>\<open>strlen\<close> counts up to the first NUL. A \<^verbatim>\<open>const char *\<close> that may be
  \<^verbatim>\<open>NULL\<close> is a \<open>string option\<close>.
\<close>

definition strlen :: "string \<Rightarrow> nat" where
  "strlen s = length (takeWhile (\<lambda>c. c \<noteq> CHR 0x00) s)"

text \<open>\<^verbatim>\<open>!strncmp(a, b, n)\<close>: the first \<open>n\<close> characters agree.\<close>

definition strncmp_eq :: "string \<Rightarrow> string \<Rightarrow> nat \<Rightarrow> bool" where
  "strncmp_eq a b n = (take n a = take n b)"

text \<open>\<^verbatim>\<open>toupper\<close> and \<^verbatim>\<open>tolower\<close> in the "C" locale (the program never sets
  another one).\<close>

definition toupper :: "char \<Rightarrow> char" where
  "toupper c =
     (let n = (of_char c :: nat) in if 97 \<le> n \<and> n \<le> 122 then char_of (n - 32) else c)"

definition tolower :: "char \<Rightarrow> char" where
  "tolower c =
     (let n = (of_char c :: nat) in if 65 \<le> n \<and> n \<le> 90 then char_of (n + 32) else c)"

definition isspace :: "char \<Rightarrow> bool" where
  "isspace c = (c \<in> set [CHR 0x20, CHR 0x09, CHR 0x0A, CHR 0x0B, CHR 0x0C, CHR 0x0D])"

definition isdigit :: "char \<Rightarrow> bool" where
  "isdigit c = (let n = (of_char c :: nat) in 48 \<le> n \<and> n \<le> 57)"

text \<open>\<^verbatim>\<open>atoi\<close>: optional white space, an optional sign, then decimal digits. The
  only caller passes a string of fewer than 10 characters, so the value always fits an
  \<^verbatim>\<open>int\<close>.\<close>

fun atoi_digits :: "c_int \<Rightarrow> string \<Rightarrow> c_int" where
  "atoi_digits acc [] = acc"
| "atoi_digits acc (c # cs) =
     (if isdigit c then atoi_digits (acc * 10 + (of_char c - 48)) cs else acc)"

definition atoi :: "string \<Rightarrow> c_int" where
  "atoi s =
     (case dropWhile isspace s of
        [] \<Rightarrow> 0
      | c # cs \<Rightarrow>
          if c = CHR ''-'' then - atoi_digits 0 cs
          else if c = CHR ''+'' then atoi_digits 0 cs
          else atoi_digits 0 (c # cs))"

text \<open>\<^verbatim>\<open>strtok\<close>: skip leading delimiters; with nothing left the result is
  \<^verbatim>\<open>NULL\<close>; otherwise the token runs up to the next delimiter, which is overwritten
  by NUL. The second component is the text the next call \<^verbatim>\<open>strtok(NULL, ...)\<close>
  continues from.\<close>

definition strtok :: "string \<Rightarrow> string \<Rightarrow> string option \<times> string" where
  "strtok s delim =
     (let s1 = dropWhile (\<lambda>c. c \<in> set delim) s
      in if s1 = [] then (None, [])
         else (Some (takeWhile (\<lambda>c. c \<notin> set delim) s1),
               drop 1 (dropWhile (\<lambda>c. c \<notin> set delim) s1)))"

section \<open>The bus transport and the other effects\<close>

text \<open>
  \<^verbatim>\<open>lib_i2c\<close> is an external collaborator. Every call on it, and every other
  effect of the library, is appended to a trace; the transport is a parameter \<open>bus\<close>
  giving the \<^verbatim>\<open>int\<close> a call returns from the trace up to and including that call.
  Quantifying over \<open>bus\<close> covers every sequence of bus responses. The library is
  taken as built without \<^verbatim>\<open>__LIB_I2CADC_APP__\<close>, that is without its debugging
  output.
\<close>

datatype event =
    I2C_Open string
  | I2C_Set_Addr c_int nat
  | I2C_Read_Word c_int nat
  | Usleep nat
  | Close c_int
  | Printf string

type_synonym trace = "event list"
type_synonym bus = "trace \<Rightarrow> c_int"

definition i2c_open :: "bus \<Rightarrow> string \<Rightarrow> trace \<Rightarrow> c_int \<times> trace" where
  "i2c_open bus node tr = (bus (tr @ [I2C_Open node]), tr @ [I2C_Open node])"

definition i2c_set_addr :: "bus \<Rightarrow> c_int \<Rightarrow> nat \<Rightarrow> trace \<Rightarrow> c_int \<times> trace" where
  "i2c_set_addr bus fd addr tr = (bus (tr @ [I2C_Set_Addr fd addr]), tr @ [I2C_Set_Addr fd addr])"

definition i2c_read_word :: "bus \<Rightarrow> c_int \<Rightarrow> nat \<Rightarrow> trace \<Rightarrow> c_int \<times> trace" where
  "i2c_read_word bus fd reg tr = (bus (tr @ [I2C_Read_Word fd reg]), tr @ [I2C_Read_Word fd reg])"

definition usleep :: "nat \<Rightarrow> trace \<Rightarrow> trace" where
  "usleep us tr = tr @ [Usleep us]"

definition close :: "c_int \<Rightarrow> trace \<Rightarrow> trace" where
  "close fd tr = tr @ [Close fd]"

definition printf :: "string \<Rightarrow> trace \<Rightarrow> trace" where
  "printf msg tr = tr @ [Printf msg]"

text \<open>What C leaves undefined is a value of the model: a dereferenced null pointer, and
  an access outside an array.\<close>

datatype fault = Null_Pointer | Out_Of_Bounds

section \<open>Reading one pin\<close>

text \<open>The loop \<^verbatim>\<open>while (i2c_set_addr(fd, addr) && retry--) usleep(100);\<close> of
  \<^verbatim>\<open>read_pin\<close>. \<^verbatim>\<open>retry--\<close> is evaluated only when the selection failed, tests
  the old value and always decrements. The result is the final value of \<^verbatim>\<open>retry\<close>.\<close>

function set_addr_retry :: "bus \<Rightarrow> c_int \<Rightarrow> nat \<Rightarrow> c_int \<Rightarrow> trace \<Rightarrow> c_int \<times> trace" where
  "set_addr_retry bus fd addr retry tr =
     (let res = i2c_set_addr bus fd addr tr
      in if fst res = 0 then (retry, snd res)
         else if retry = 0 then (retry - 1, snd res)
         else set_addr_retry bus fd addr (retry - 1) (usleep 100 (snd res)))"
  by pat_completeness auto
termination
  by (relation "measure (\<lambda>(bus, fd, addr, retry, tr). unat retry)")
     (auto simp: unat_minus_one unat_gt_0)

declare set_addr_retry.simps [simp del]

definition read_pin :: "bus \<Rightarrow> c_int \<Rightarrow> pin_info \<Rightarrow> trace \<Rightarrow> fault + (c_int \<times> trace)" where
  "read_pin bus fd info tr =
     (if adc_idx info = NOT_USED then Inr (0, tr)
      else if \<not> adc_idx info < length ADC_I2C_ADDR then Inl Out_Of_Bounds
      else
        let (retry, tr1) = set_addr_retry bus fd (ADC_I2C_ADDR ! adc_idx info) 3 tr
        in if retry \<noteq> 0 then
             (if \<not> ch_idx info < length ADC_CH_ADDR then Inl Out_Of_Bounds
              else
                let (dummy, tr2) = i2c_read_word bus fd (ADC_CH_ADDR ! ch_idx info) tr1;
                    (read_val, tr3) = i2c_read_word bus fd (ADC_CH_ADDR ! ch_idx info) tr2
                in Inr (conversion_code read_val, tr3))
           else Inr (0, tr1))"

section \<open>Resolving a header name and a pin number\<close>

text \<open>A \<^verbatim>\<open>struct pin_info *\<close> into one of the header tables: the table and the
  index pointed to, which pointer arithmetic may move outside the table.\<close>

type_synonym pin_ptr = "pin_info list \<times> int"

definition deref :: "pin_ptr \<Rightarrow> fault + pin_info" where
  "deref p =
     (case p of (hdr, i) \<Rightarrow>
        if 0 \<le> i \<and> i < int (length hdr) then Inr (hdr ! nat i) else Inl Out_Of_Bounds)"

text \<open>The three statements every matching branch of \<^verbatim>\<open>header_info\<close> runs on its
  table:
  \<^verbatim>\<open>pin_no = pin_no < (int)ARRARY_SIZE(H) ? pin_no : 0;\<close>
  \<^verbatim>\<open>p = pin_no ? &H[pin_no] : &H[1];\<close>
  \<^verbatim>\<open>*p_cnt = pin_no ? 1 : ARRARY_SIZE(H) - 1;\<close>\<close>

definition select_pins :: "pin_info list \<Rightarrow> c_int \<Rightarrow> pin_ptr \<times> nat" where
  "select_pins hdr pin_no =
     (let pin_no = (if pin_no <s word_of_nat (length hdr) then pin_no else 0);
          p = (if pin_no \<noteq> 0 then (hdr, sint pin_no) else (hdr, 1));
          p_cnt = (if pin_no \<noteq> 0 then 1 else length hdr - 1)
      in (p, p_cnt))"

definition header_info :: "string option \<Rightarrow> c_int \<Rightarrow> fault + (pin_ptr \<times> nat)" where
  "header_info h_name pin_no =
     (case h_name of
        None \<Rightarrow> Inl Null_Pointer
      | Some h \<Rightarrow>
          Inr (if strncmp_eq ''CON1'' h (strlen ''CON1'') then select_pins HEADER_CON1 pin_no
               else if strncmp_eq ''P3'' h (strlen ''P3'') then select_pins HEADER_P3 pin_no
               else if strncmp_eq ''P13'' h (strlen ''P13'') then select_pins HEADER_P13 pin_no
               else if strncmp_eq ''P1_1'' h (strlen ''P1_1'') then select_pins HEADER_P1_1 pin_no
               else if strncmp_eq ''P1_2'' h (strlen ''P1_2'') then select_pins HEADER_P1_2 pin_no
               else if strncmp_eq ''P1_3'' h (strlen ''P1_3'') then select_pins HEADER_P1_3 pin_no
               else if strncmp_eq ''P1_4'' h (strlen ''P1_4'') then select_pins HEADER_P1_4 pin_no
               else if strncmp_eq ''P1_5'' h (strlen ''P1_5'') then select_pins HEADER_P1_5 pin_no
               else if strncmp_eq ''P1_6'' h (strlen ''P1_6'') then select_pins HEADER_P1_6 pin_no
               else ((HEADER_CON1, 0), 0)))"

text \<open>The entries a caller reads through the returned pointer: \<open>p[0]\<close>, ...,
  \<open>p[cnt - 1]\<close>.\<close>

definition pointed_pins :: "pin_ptr \<times> nat \<Rightarrow> (fault + pin_info) list" where
  "pointed_pins r =
     (case r of ((hdr, i), cnt) \<Rightarrow> map (\<lambda>k. deref (hdr, i + int k)) [0..<cnt])"

section \<open>The presence check\<close>

text \<open>The loop of \<^verbatim>\<open>check_devices\<close> over \<^verbatim>\<open>ADC_I2C_ADDR\<close>: the result of
  \<^verbatim>\<open>i2c_set_addr\<close> is ignored, and the chip's address is also the command byte of the
  read.\<close>

fun check_addrs :: "bus \<Rightarrow> c_int \<Rightarrow> nat list \<Rightarrow> trace \<Rightarrow> c_int \<times> trace" where
  "check_addrs bus fd [] tr = (1, tr)"
| "check_addrs bus fd (a # as) tr =
     (let (ignored, tr1) = i2c_set_addr bus fd a tr;
          (r, tr2) = i2c_read_word bus fd a tr1
      in if r <s 0 then (0, tr2) else check_addrs bus fd as tr2)"

definition check_devices :: "bus \<Rightarrow> c_int \<Rightarrow> trace \<Rightarrow> c_int \<times> trace" where
  "check_devices bus fd tr = check_addrs bus fd ADC_I2C_ADDR tr"

section \<open>The public operations\<close>

text \<open>\<^verbatim>\<open>toupperstr\<close>, and \<^verbatim>\<open>tolowerstr\<close> of lib\_main.c.\<close>

definition toupperstr :: "string \<Rightarrow> string" where
  "toupperstr p = map toupper p"

definition tolowerstr :: "string \<Rightarrow> string" where
  "tolowerstr p = map tolower p"

text \<open>The loop of \<^verbatim>\<open>adc_board_read\<close>,
  \<^verbatim>\<open>for (i = 0; i < pin_cnt; i++, p++) read_value[i] = convert_to_mv (read_pin (fd, p));\<close>
  with \<open>n\<close> the iterations left. \<open>read_value\<close> is the caller's array; the
  \<^verbatim>\<open>int\<close> result of \<^verbatim>\<open>read_pin\<close> is converted to the \<^verbatim>\<open>unsigned short\<close>
  parameter of \<^verbatim>\<open>convert_to_mv\<close>.\<close>

fun read_pins ::
  "bus \<Rightarrow> c_int \<Rightarrow> pin_ptr \<Rightarrow> nat \<Rightarrow> nat \<Rightarrow> c_int list \<Rightarrow> trace \<Rightarrow> fault + (c_int list \<times> trace)"
where
  "read_pins bus fd p i 0 read_value tr = Inr (read_value, tr)"
| "read_pins bus fd p i (Suc n) read_value tr =
     (case deref p of
        Inl e \<Rightarrow> Inl e
      | Inr info \<Rightarrow>
          (case read_pin bus fd info tr of
             Inl e \<Rightarrow> Inl e
           | Inr (v, tr1) \<Rightarrow>
               if i < length read_value
               then read_pins bus fd (fst p, snd p + 1) (i + 1) n
                      (read_value[i := convert_to_mv (ucast v)]) tr1
               else Inl Out_Of_Bounds))"

text \<open>Lines 384 to 393 of \<^verbatim>\<open>adc_board_read\<close>: the name is copied into the zeroed
  buffer \<^verbatim>\<open>char str[10]\<close>, split at the first \<^verbatim>\<open>.\<close>, the header part is put in
  upper case, the pin part is read by \<^verbatim>\<open>atoi\<close>, and \<^verbatim>\<open>header_info\<close> is called. A
  name of 10 characters or more overruns the buffer or leaves it without terminator.\<close>

definition resolve_name :: "string \<Rightarrow> fault + (pin_ptr \<times> nat)" where
  "resolve_name h_name =
     (if \<not> strlen h_name < 10 then Inl Out_Of_Bounds
      else
        let str = take (strlen h_name) h_name;
            (p_name, rest) = strtok str ''.'';
            p_name = map_option toupperstr p_name;
            (pin_str, rest) = strtok rest '' '';
            pin_no = (case pin_str of None \<Rightarrow> 0 | Some s \<Rightarrow> atoi s)
        in header_info p_name pin_no)"

text \<open>\<^verbatim>\<open>adc_board_read\<close>. The result carries the return value, the array
  \<open>read_value\<close> and the variable \<open>cnt\<close> as the call leaves them, and the trace.\<close>

definition adc_board_read ::
  "bus \<Rightarrow> c_int \<Rightarrow> string option \<Rightarrow> c_int list \<Rightarrow> c_int \<Rightarrow> trace \<Rightarrow>
     fault + (c_int \<times> c_int list \<times> c_int \<times> trace)"
where
  "adc_board_read bus fd h_name read_value cnt tr =
     (case h_name of
        None \<Rightarrow> Inr (- 1, read_value, cnt, tr)
      | Some h \<Rightarrow>
          if fd = 0 then Inr (- 1, read_value, cnt, tr)
          else
            (case resolve_name h of
               Inl e \<Rightarrow> Inl e
             | Inr (p, pin_cnt) \<Rightarrow>
                 if pin_cnt \<noteq> 0 then
                   (case read_pins bus fd p 0 pin_cnt read_value tr of
                      Inl e \<Rightarrow> Inl e
                    | Inr (read_value', tr') \<Rightarrow> Inr (1, read_value', word_of_nat pin_cnt, tr'))
                 else Inr (0, read_value, cnt, tr)))"

text \<open>\<^verbatim>\<open>adc_board_init\<close>.\<close>

definition adc_board_init :: "bus \<Rightarrow> string \<Rightarrow> trace \<Rightarrow> c_int \<times> trace" where
  "adc_board_init bus i2c_dev_node tr =
     (let (fd, tr1) = i2c_open bus i2c_dev_node tr
      in if fd <s 0 then (0, tr1)
         else
           let (ok, tr2) = check_devices bus fd tr1
           in if ok \<noteq> 0 then (fd, tr2)
              else (- 1, close fd
                     (printf (''Can not found adc board. i2c_dev = '' @ i2c_dev_node @ [CHR 0x0A])
                        tr2)))"


section \<open>Vocabulary of the statements\<close>

text \<open>The prefixes \<open>header_info\<close> tests, in its order, each with the table of its
  branch.\<close>

definition header_tables :: "(string \<times> pin_info list) list" where
  "header_tables =
     [(''CON1'', HEADER_CON1), (''P3'', HEADER_P3), (''P13'', HEADER_P13),
      (''P1_1'', HEADER_P1_1), (''P1_2'', HEADER_P1_2), (''P1_3'', HEADER_P1_3),
      (''P1_4'', HEADER_P1_4), (''P1_5'', HEADER_P1_5), (''P1_6'', HEADER_P1_6)]"

text \<open>The entries of a table carry the pin numbers \<open>k\<close>, \<open>k + 1\<close>, ... in order.\<close>

fun numbered_from :: "nat \<Rightarrow> pin_info list \<Rightarrow> bool" where
  "numbered_from k [] = True"
| "numbered_from k (x # xs) = (pin_num x = k \<and> numbered_from (Suc k) xs)"

text \<open>Simulated transports. \<open>bus_const r\<close> answers every call with \<open>r\<close>;
  \<open>bus_replies open_r sel_r read_r\<close> answers by the kind of call.\<close>

definition bus_const :: "c_int \<Rightarrow> bus" where
  "bus_const r tr = r"

definition bus_replies :: "c_int \<Rightarrow> c_int \<Rightarrow> c_int \<Rightarrow> bus" where
  "bus_replies open_r sel_r read_r tr =
     (case last tr of
        I2C_Open node \<Rightarrow> open_r
      | I2C_Set_Addr fd addr \<Rightarrow> sel_r
      | I2C_Read_Word fd reg \<Rightarrow> read_r
      | _ \<Rightarrow> 0)"

text \<open>Letters of the "C" locale, and what the statements need of a change of case: it
  moves letters to letters, leaves every other character alone, and is undone by
  \<open>toupper\<close>.\<close>

definition is_letter :: "char \<Rightarrow> bool" where
  "is_letter c = (let n = (of_char c :: nat) in (65 \<le> n \<and> n \<le> 90) \<or> (97 \<le> n \<and> n \<le> 122))"

definition case_change :: "(char \<Rightarrow> char) \<Rightarrow> bool" where
  "case_change f = ((\<forall>c. \<not> is_letter c \<longrightarrow> f c = c) \<and> (\<forall>c. is_letter c \<longrightarrow> is_letter (f c))
      \<and> (\<forall>c. toupper (f c) = toupper c))"

text \<open>\<open>bus_select_after k read_r\<close> refuses the first \<open>k\<close> address selections of
  a trace and accepts the later ones; every read returns \<open>read_r\<close>.\<close>

fun is_set_addr :: "event \<Rightarrow> bool" where
  "is_set_addr (I2C_Set_Addr fd addr) = True"
| "is_set_addr e = False"

definition bus_select_after :: "nat \<Rightarrow> c_int \<Rightarrow> bus" where
  "bus_select_after k read_r tr =
     (case last tr of
        I2C_Set_Addr fd addr \<Rightarrow> if length (filter is_set_addr tr) \<le> k then - 1 else 0
      | I2C_Read_Word fd reg \<Rightarrow> read_r
      | _ \<Rightarrow> 0)"

section \<open>Arithmetic of the conversion\<close>

lemma sdiv_nonneg: "0 \<le> a \<Longrightarrow> 0 < b \<Longrightarrow> (a::int) sdiv b = a div b"
  by (cases "a = 0") (simp_all add: signed_divide_int_def sgn_if)

lemma signed_take_bit_31_id: "0 \<le> k \<Longrightarrow> k < 2 ^ 31 \<Longrightarrow> signed_take_bit 31 (k::int) = k"
  using signed_take_bit_int_eq_self [of 31 k] by simp

lemma sint_ucast_ushort: "sint (ucast (r :: c_ushort) :: c_int) = uint r"
proof -
  have "uint r < 2 ^ 16" using uint_bounded [of r] by simp
  then have "uint r < 2 ^ 31" by simp
  then show ?thesis by (simp add: signed_ucast_eq signed_take_bit_31_id)
qed

lemma ADC_WEIGHT_uV_value: "ADC_WEIGHT_uV = 1220"
  by (simp add: ADC_WEIGHT_uV_def ADC_REF_VOLTAGE_def c_div_def)

lemma sint_convert_to_mv: "sint (convert_to_mv r) = (uint r * 1220) div 1000"
proof -
  have b: "uint r < 65536" using uint_bounded [of r] by simp
  have p: "0 \<le> uint r" by simp
  have s: "sint ((ucast r :: c_int) * 1220) = uint r * 1220"
    using b p by (simp add: sint_word_ariths sint_ucast_ushort signed_take_bit_31_id)
  have d: "uint r * 1220 div 1000 < 2 ^ 31" using b p by simp
  have e: "0 \<le> uint r * 1220 div 1000" using p by (simp add: pos_imp_zdiv_nonneg_iff)
  show ?thesis
    using p d e
    by (simp add: convert_to_mv_def ADC_WEIGHT_uV_value c_div_def s sdiv_nonneg
        signed_of_int signed_take_bit_31_id)
qed

lemma convert_to_mv_bounds:
  assumes "r \<le> 4095"
  shows "0 \<le> sint (convert_to_mv r)" and "sint (convert_to_mv r) \<le> 4995"
proof -
  have u: "uint r \<le> 4095" using assms by (simp add: word_le_def)
  have p: "0 \<le> uint r" by simp
  show "0 \<le> sint (convert_to_mv r)"
    using p by (simp add: sint_convert_to_mv pos_imp_zdiv_nonneg_iff)
  show "sint (convert_to_mv r) \<le> 4995"
    using u p by (simp add: sint_convert_to_mv)
qed

text \<open>
  Claim C3. For every raw code \<open>r\<close> in 0..4095, \<open>convert_to_mv r\<close> is
  \<open>(r * 1220) div 1000\<close>: the multiplication by the weight comes first, the division by
  1000 second, both on integers; the weight \<open>ADC_WEIGHT_uV\<close> is 1220, the integer
  quotient of 5000000 by 4096. In particular 0 gives 0, 2048 gives 2498 and 4095 gives
  4995 millivolts.
\<close>

theorem convert_to_mv_spec:
  "r \<le> 4095 \<Longrightarrow>
     sint (convert_to_mv r) = (uint r * sint ADC_WEIGHT_uV) div 1000
     \<and> sint ADC_WEIGHT_uV = 1220
     \<and> sint ADC_WEIGHT_uV = 5000000 div 4096
     \<and> convert_to_mv 0 = 0
     \<and> convert_to_mv 2048 = 2498
     \<and> convert_to_mv 4095 = 4995"
proof -
  have w: "sint ADC_WEIGHT_uV = 1220" by (simp add: ADC_WEIGHT_uV_value)
  have e0: "convert_to_mv 0 = 0"
    by (simp add: convert_to_mv_def c_div_def)
  have e1: "convert_to_mv 2048 = 2498"
    by (simp add: convert_to_mv_def ADC_WEIGHT_uV_value c_div_def)
  have e2: "convert_to_mv 4095 = 4995"
    by (simp add: convert_to_mv_def ADC_WEIGHT_uV_value c_div_def)
  show ?thesis
    by (simp add: w sint_convert_to_mv e0 e1 e2)
qed

theorem convert_to_mv_spec_witness:
  "(1000 :: c_ushort) \<le> 4095 \<and> sint (convert_to_mv 1000) = 1220"
  using convert_to_mv_spec [of 1000] by simp

section \<open>Extraction of the conversion code\<close>

lemma mask8_numeral: "(255 :: 'a::len word) = mask 8"
  by (simp add: mask_eq_exp_minus_1)

lemma mask12_numeral: "(4095 :: 'a::len word) = mask 12"
  by (simp add: mask_eq_exp_minus_1)

lemma mask8_high_numeral: "(65280 :: c_int) = push_bit 8 (mask 8)"
  by (simp add: mask_eq_exp_minus_1)

lemma conversion_code_nonneg:
  assumes "\<not> w <s 0"
  shows "conversion_code w = ucast (spec_conversion_code (ucast w))"
proof -
  have "signed_drop_bit 4 (signed_drop_bit 8 w AND mask 8 OR push_bit 8 w AND push_bit 8 (mask 8))
          AND mask 12
        = (ucast (drop_bit 4 (word_cat (ucast (ucast w :: 16 word) :: 8 word)
                     (ucast (drop_bit 8 (ucast w :: 16 word)) :: 8 word) :: 16 word)
                  AND mask 12) :: c_int)"
    by (rule bit_word_eqI) (auto simp add: bit_simps)
  then show ?thesis
    using assms
    by (simp add: conversion_code_def spec_conversion_code_def SWAP_WORD_def
        spec_swap_bytes_def mask8_numeral mask12_numeral mask8_high_numeral)
qed

lemma conversion_code_le: "conversion_code w \<le> 4095"
  by (simp add: conversion_code_def Let_def word_and_le1)

text \<open>
  Claim C4. For every non-negative 16-bit word \<open>w\<close> that the bus read returns, the code
  extracted by \<open>read_pin\<close> is the word with its two bytes exchanged, shifted right by
  4 bits and masked to 12 bits.
\<close>

theorem conversion_code_swap_shift_mask:
  "0 \<le>s w \<Longrightarrow> w \<le>s 0xFFFF \<Longrightarrow>
     conversion_code w = ucast ((drop_bit 4 (spec_swap_bytes (ucast w))) AND 0xFFF)"
proof -
  assume "0 \<le>s w"
  then have "\<not> w <s 0" by (simp add: word_sless_alt word_sle_eq)
  then show ?thesis
    by (simp add: conversion_code_nonneg spec_conversion_code_def)
qed

theorem conversion_code_swap_shift_mask_witness:
  "(0 :: c_int) \<le>s 0x34F2 \<and> (0x34F2 :: c_int) \<le>s 0xFFFF
   \<and> spec_swap_bytes 0x34F2 = 0xF234
   \<and> conversion_code 0x34F2 = 0xF23"
proof -
  have a: "(0 :: c_int) \<le>s 0x34F2" by (simp add: word_sle_eq)
  have b: "(0x34F2 :: c_int) \<le>s 0xFFFF" by (simp add: word_sle_eq)
  have c: "spec_swap_bytes 0x34F2 = 0xF234" by (simp add: spec_swap_bytes_def word_cat_eq)
  show ?thesis
    using conversion_code_swap_shift_mask [OF a b] a b c by simp
qed


section \<open>The header tables and the resolver\<close>

lemma numbered_from_nth:
  "numbered_from k xs \<Longrightarrow> i < length xs \<Longrightarrow> pin_num (xs ! i) = k + i"
proof (induction xs arbitrary: k i)
  case Nil
  then show ?case by simp
next
  case (Cons x xs)
  then show ?case by (cases i) auto
qed

lemma numbered_from_map: "numbered_from k xs \<Longrightarrow> map pin_num xs = [k..<k + length xs]"
proof (induction xs arbitrary: k)
  case Nil
  then show ?case by simp
next
  case (Cons x xs)
  from Cons.prems have "numbered_from (Suc k) xs" by simp
  then have "map pin_num xs = [Suc k..<Suc k + length xs]" by (rule Cons.IH)
  moreover have "k + length (x # xs) = Suc k + length xs" by simp
  moreover have "[k..<Suc k + length xs] = k # [Suc k..<Suc k + length xs]"
    by (rule upt_conv_Cons) simp
  moreover have "pin_num x = k" using Cons.prems by simp
  ultimately show ?case by (simp only: list.map)
qed

lemmas header_defs =
  HEADER_CON1_def HEADER_P3_def HEADER_P13_def HEADER_P1_1_def HEADER_P1_2_def
  HEADER_P1_3_def HEADER_P1_4_def HEADER_P1_5_def HEADER_P1_6_def

lemma header_tables_numbered:
  "(pre, hdr) \<in> set header_tables \<Longrightarrow> numbered_from 0 hdr"
  unfolding header_tables_def by (auto simp: header_defs)

lemma header_tables_length:
  "(pre, hdr) \<in> set header_tables \<Longrightarrow> 2 \<le> length hdr \<and> length hdr \<le> 41"
  unfolding header_tables_def by (auto simp: header_defs)

lemma strlen_literals:
  "strlen ''CON1'' = 4" "strlen ''P3'' = 2" "strlen ''P13'' = 3" "strlen ''P1_1'' = 4"
  "strlen ''P1_2'' = 4" "strlen ''P1_3'' = 4" "strlen ''P1_4'' = 4" "strlen ''P1_5'' = 4"
  "strlen ''P1_6'' = 4"
  by (simp_all add: strlen_def)

lemma take_eq_append: "take n h = p \<Longrightarrow> length p = n \<Longrightarrow> h = p @ drop n h"
  by (metis append_take_drop_id)

lemma header_tables_cases:
  "(pre, hdr) \<in> set header_tables \<longleftrightarrow>
     pre = ''CON1'' \<and> hdr = HEADER_CON1 \<or> pre = ''P3'' \<and> hdr = HEADER_P3
   \<or> pre = ''P13'' \<and> hdr = HEADER_P13 \<or> pre = ''P1_1'' \<and> hdr = HEADER_P1_1
   \<or> pre = ''P1_2'' \<and> hdr = HEADER_P1_2 \<or> pre = ''P1_3'' \<and> hdr = HEADER_P1_3
   \<or> pre = ''P1_4'' \<and> hdr = HEADER_P1_4 \<or> pre = ''P1_5'' \<and> hdr = HEADER_P1_5
   \<or> pre = ''P1_6'' \<and> hdr = HEADER_P1_6"
  by (simp add: header_tables_def)

text \<open>No prefix is a prefix of another one, so a name that starts with the prefix of a
  branch reaches that branch.\<close>

lemma header_info_prefix:
  "header_info (Some (''CON1'' @ t)) n = Inr (select_pins HEADER_CON1 n)"
  "header_info (Some (''P3'' @ t)) n = Inr (select_pins HEADER_P3 n)"
  "header_info (Some (''P13'' @ t)) n = Inr (select_pins HEADER_P13 n)"
  "header_info (Some (''P1_1'' @ t)) n = Inr (select_pins HEADER_P1_1 n)"
  "header_info (Some (''P1_2'' @ t)) n = Inr (select_pins HEADER_P1_2 n)"
  "header_info (Some (''P1_3'' @ t)) n = Inr (select_pins HEADER_P1_3 n)"
  "header_info (Some (''P1_4'' @ t)) n = Inr (select_pins HEADER_P1_4 n)"
  "header_info (Some (''P1_5'' @ t)) n = Inr (select_pins HEADER_P1_5 n)"
  "header_info (Some (''P1_6'' @ t)) n = Inr (select_pins HEADER_P1_6 n)"
  by (simp_all add: header_info_def strlen_literals strncmp_eq_def)

lemma header_info_match:
  assumes "(pre, hdr) \<in> set header_tables" and "strncmp_eq pre h (strlen pre)"
  shows "header_info (Some h) n = Inr (select_pins hdr n)"
proof -
  have len: "length pre = strlen pre"
    using assms(1) unfolding header_tables_cases
    by (elim disjE conjE) (simp_all add: strlen_literals)
  have "take (strlen pre) h = pre"
    using assms(2) len by (simp add: strncmp_eq_def)
  then have "h = pre @ drop (strlen pre) h"
    using len by (simp add: take_eq_append)
  then obtain t where h: "h = pre @ t" ..
  show ?thesis
    using assms(1) unfolding header_tables_cases h
    by (elim disjE conjE) (simp_all only: header_info_prefix)
qed

lemma header_info_no_match:
  assumes "\<forall>(pre, hdr) \<in> set header_tables. \<not> strncmp_eq pre h (strlen pre)"
  shows "header_info (Some h) n = Inr ((HEADER_CON1, 0), 0)"
  using assms by (simp add: header_info_def header_tables_def)

lemma sint_word_of_nat_small: "k < 2 ^ 31 \<Longrightarrow> sint (word_of_nat k :: c_int) = int k"
  by (simp add: signed_of_nat signed_take_bit_31_id)

lemma select_pins_in_range:
  assumes "0 < sint n" and "sint n < int (length hdr)" and "length hdr < 2 ^ 31"
  shows "select_pins hdr n = ((hdr, sint n), 1)"
proof -
  have "n \<noteq> 0" using assms(1) by auto
  moreover have "n <s word_of_nat (length hdr)"
    using assms by (simp add: word_sless_alt sint_word_of_nat_small)
  ultimately show ?thesis by (simp add: select_pins_def)
qed

lemma select_pins_whole:
  assumes "n = 0 \<or> int (length hdr) \<le> sint n" and "length hdr < 2 ^ 31"
  shows "select_pins hdr n = ((hdr, 1), length hdr - 1)"
  using assms by (auto simp add: select_pins_def word_sless_alt sint_word_of_nat_small)


lemma pointed_pins_one:
  "0 \<le> i \<Longrightarrow> i < int (length hdr) \<Longrightarrow> pointed_pins ((hdr, i), Suc 0) = [Inr (hdr ! nat i)]"
  by (simp add: pointed_pins_def deref_def)

lemma pointed_pins_tail:
  "pointed_pins ((hdr, 1), length hdr - 1) = map Inr (tl hdr)"
proof (rule nth_equalityI)
  show "length (pointed_pins ((hdr, 1), length hdr - 1)) = length (map Inr (tl hdr))"
    by (simp add: pointed_pins_def)
next
  fix k assume "k < length (pointed_pins ((hdr, 1), length hdr - 1))"
  then have k: "k < length hdr - 1" by (simp add: pointed_pins_def)
  then have "pointed_pins ((hdr, 1), length hdr - 1) ! k = Inr (hdr ! Suc k)"
    by (simp add: pointed_pins_def deref_def nat_add_distrib)
  also have "\<dots> = map Inr (tl hdr) ! k"
    using k by (simp add: nth_tl)
  finally show "pointed_pins ((hdr, 1), length hdr - 1) ! k = map Inr (tl hdr) ! k" .
qed

text \<open>
  Claim C5. For every header name \<open>h\<close> that starts with one of the nine prefixes and
  every pin number \<open>n\<close> with \<open>0 < n\<close> below the length of that header's table,
  \<open>header_info\<close> returns a pointer to entry \<open>n\<close> of the table with count 1: the
  caller reads exactly one entry, and its \<open>pin_num\<close> is \<open>n\<close>.
\<close>

theorem header_info_single_pin:
  "(pre, hdr) \<in> set header_tables \<Longrightarrow> strncmp_eq pre h (strlen pre) \<Longrightarrow>
   0 < sint n \<Longrightarrow> sint n < int (length hdr) \<Longrightarrow>
     header_info (Some h) n = Inr ((hdr, sint n), 1)
     \<and> pointed_pins ((hdr, sint n), 1) = [Inr (hdr ! nat (sint n))]
     \<and> int (pin_num (hdr ! nat (sint n))) = sint n"
proof -
  assume t: "(pre, hdr) \<in> set header_tables" and m: "strncmp_eq pre h (strlen pre)"
    and lo: "0 < sint n" and hi: "sint n < int (length hdr)"
  have len: "length hdr < 2 ^ 31" using header_tables_length [OF t] by simp
  have a: "header_info (Some h) n = Inr ((hdr, sint n), 1)"
    by (simp add: header_info_match [OF t m] select_pins_in_range [OF lo hi len])
  have b: "pointed_pins ((hdr, sint n), 1) = [Inr (hdr ! nat (sint n))]"
    using lo hi by (simp add: pointed_pins_one)
  have "nat (sint n) < length hdr" using lo hi by simp
  then have "pin_num (hdr ! nat (sint n)) = nat (sint n)"
    using numbered_from_nth [OF header_tables_numbered [OF t]] by simp
  then have c: "int (pin_num (hdr ! nat (sint n))) = sint n" using lo by simp
  show ?thesis using a b c by simp
qed

theorem header_info_single_pin_witness:
  "(''CON1'', HEADER_CON1) \<in> set header_tables
   \<and> strncmp_eq ''CON1'' ''CON1.5'' (strlen ''CON1'')
   \<and> 0 < sint (5 :: c_int) \<and> sint (5 :: c_int) < int (length HEADER_CON1)
   \<and> header_info (Some ''CON1.5'') 5 = Inr ((HEADER_CON1, 5), 1)
   \<and> pointed_pins ((HEADER_CON1, 5), 1) = [Inr (pin ''CON1.5'' 5 CHIP_ADC1 1)]"
proof -
  have a: "(''CON1'', HEADER_CON1) \<in> set header_tables" by (simp add: header_tables_def)
  have b: "strncmp_eq ''CON1'' ''CON1.5'' (strlen ''CON1'')"
    by (simp add: strncmp_eq_def strlen_def)
  have c: "0 < sint (5 :: c_int)" by simp
  have d: "sint (5 :: c_int) < int (length HEADER_CON1)" by (simp add: HEADER_CON1_def)
  have e: "HEADER_CON1 ! nat (sint (5 :: c_int)) = pin ''CON1.5'' 5 CHIP_ADC1 1"
    by (simp add: HEADER_CON1_def)
  show ?thesis
    using header_info_single_pin [OF a b c d] a b c d e by simp
qed

text \<open>What holds of the whole-header query: with pin number 0, or a pin number at or
  beyond the length of the table, the pointer is to entry 1 and the count is the length
  minus one; the entries read are the table without its entry 0, numbered 1, 2, ... in
  order.\<close>

lemma header_info_whole_header:
  assumes "(pre, hdr) \<in> set header_tables" and "strncmp_eq pre h (strlen pre)"
    and "n = 0 \<or> int (length hdr) \<le> sint n"
  shows "header_info (Some h) n = Inr ((hdr, 1), length hdr - 1)"
    and "pointed_pins ((hdr, 1), length hdr - 1) = map Inr (tl hdr)"
    and "map pin_num (tl hdr) = [1..<length hdr]"
proof -
  have len: "length hdr < 2 ^ 31" using header_tables_length [OF assms(1)] by simp
  show "header_info (Some h) n = Inr ((hdr, 1), length hdr - 1)"
    by (simp add: header_info_match [OF assms(1,2)] select_pins_whole [OF assms(3) len])
  show "pointed_pins ((hdr, 1), length hdr - 1) = map Inr (tl hdr)"
    by (rule pointed_pins_tail)
  have "map pin_num hdr = [0..<length hdr]"
    using numbered_from_map [OF header_tables_numbered [OF assms(1)]] by simp
  then have "map pin_num (tl hdr) = tl [0..<length hdr]" by (simp add: map_tl)
  also have "\<dots> = [1..<length hdr]"
    using header_tables_length [OF assms(1)] by (simp add: upt_rec [of 0])
  finally show "map pin_num (tl hdr) = [1..<length hdr]" .
qed

text \<open>
  Claim C6. The claim is that a pin number that is 0 or out of range for the matched
  header yields the whole header from entry 1 on. A negative pin number is out of range,
  but passes the only test, \<^verbatim>\<open>pin_no < (int)ARRARY_SIZE(HEADER_CON1)\<close>:
  \<open>header_info\<close> then returns a pointer before the table with count 1, and
  \<open>adc_board_read\<close>, which gets \<open>- 1\<close> from \<open>atoi\<close> for the name \<^verbatim>\<open>CON1.-1\<close>,
  reads outside the table.
\<close>

theorem header_info_negative_pin:
  "header_info (Some ''CON1'') (- 1) = Inr ((HEADER_CON1, - 1), 1)
   \<and> pointed_pins ((HEADER_CON1, - 1), 1) = [Inl Out_Of_Bounds]
   \<and> resolve_name ''CON1.-1'' = Inr ((HEADER_CON1, - 1), 1)
   \<and> adc_board_read (bus_const 0) 3 (Some ''CON1.-1'') [0, 0] 0 [] = Inl Out_Of_Bounds"
  by code_simp


section \<open>Reading a pin\<close>

text \<open>
  Claim C9. For every pin whose \<open>adc_idx\<close> is \<open>NOT_USED\<close>, whatever the transport
  answers and whatever happened before, \<open>read_pin\<close> returns 0 and leaves the trace as
  it was: no call on the bus is made. The value 0 converts to 0 millivolts.
\<close>

theorem read_pin_not_used:
  "adc_idx info = NOT_USED \<Longrightarrow>
     read_pin bus fd info tr = Inr (0, tr) \<and> convert_to_mv (ucast (0 :: c_int)) = 0"
  by (simp add: read_pin_def convert_to_mv_def c_div_def)

theorem read_pin_not_used_witness:
  "adc_idx (pin ''CON1.6'' 6 NOT_USED 0) = NOT_USED
   \<and> read_pin (bus_const (- 1)) 3 (pin ''CON1.6'' 6 NOT_USED 0) [] = Inr (0, [])"
  using read_pin_not_used [of "pin ''CON1.6'' 6 NOT_USED 0" "bus_const (- 1)" 3 "[]"]
  by simp

text \<open>The same in the loop of \<open>adc_board_read\<close>: the reading stored for such a pin
  is 0.\<close>

lemma read_pins_not_used:
  assumes "deref p = Inr info" and "adc_idx info = NOT_USED" and "i < length rv"
  shows "read_pins bus fd p i (Suc 0) rv tr = Inr (rv[i := 0], tr)"
  using assms by (simp add: read_pin_def convert_to_mv_def c_div_def)

text \<open>On a transport that refuses every selection of the chip, the loop makes four
  attempts and leaves \<open>retry = - 1\<close>, and \<open>read_pin\<close> goes on to the two reads.\<close>

lemma set_addr_retry_never_selected:
  assumes "\<And>tr'. bus (tr' @ [I2C_Set_Addr fd a]) \<noteq> 0"
  shows "set_addr_retry bus fd a 3 tr =
           (- 1, tr @ [I2C_Set_Addr fd a, Usleep 100, I2C_Set_Addr fd a, Usleep 100,
                       I2C_Set_Addr fd a, Usleep 100, I2C_Set_Addr fd a])"
proof -
  let ?s = "I2C_Set_Addr fd a" and ?u = "Usleep 100"
  have step: "\<And>r t. r \<noteq> 0 \<Longrightarrow>
      set_addr_retry bus fd a r t = set_addr_retry bus fd a (r - 1) (t @ [?s, ?u])"
    using assms by (subst set_addr_retry.simps) (simp add: i2c_set_addr_def usleep_def)
  have stop: "\<And>t. set_addr_retry bus fd a 0 t = (- 1, t @ [?s])"
    using assms by (subst set_addr_retry.simps) (simp add: i2c_set_addr_def)
  have "set_addr_retry bus fd a 3 tr = set_addr_retry bus fd a 2 (tr @ [?s, ?u])"
    using step [of 3 tr] by simp
  also have "\<dots> = set_addr_retry bus fd a 1 (tr @ [?s, ?u, ?s, ?u])"
    using step [of 2 "tr @ [?s, ?u]"] by simp
  also have "\<dots> = set_addr_retry bus fd a 0 (tr @ [?s, ?u, ?s, ?u, ?s, ?u])"
    using step [of 1 "tr @ [?s, ?u, ?s, ?u]"] by simp
  also have "\<dots> = (- 1, tr @ [?s, ?u, ?s, ?u, ?s, ?u, ?s])"
    using stop [of "tr @ [?s, ?u, ?s, ?u, ?s, ?u]"] by simp
  finally show ?thesis .
qed

lemma read_pin_never_selected:
  assumes "\<And>tr'. bus (tr' @ [I2C_Set_Addr fd (ADC_I2C_ADDR ! adc_idx info)]) \<noteq> 0"
    and "adc_idx info < 6" and "ch_idx info < 8"
  shows "read_pin bus fd info tr =
           (let s = I2C_Set_Addr fd (ADC_I2C_ADDR ! adc_idx info); u = Usleep 100;
                r = I2C_Read_Word fd (ADC_CH_ADDR ! ch_idx info);
                tr' = tr @ [s, u, s, u, s, u, s, r, r]
            in Inr (conversion_code (bus tr'), tr'))"
proof -
  have r: "set_addr_retry bus fd (ADC_I2C_ADDR ! adc_idx info) 3 tr =
           (- 1, tr @ [I2C_Set_Addr fd (ADC_I2C_ADDR ! adc_idx info), Usleep 100,
                       I2C_Set_Addr fd (ADC_I2C_ADDR ! adc_idx info), Usleep 100,
                       I2C_Set_Addr fd (ADC_I2C_ADDR ! adc_idx info), Usleep 100,
                       I2C_Set_Addr fd (ADC_I2C_ADDR ! adc_idx info)])"
    by (rule set_addr_retry_never_selected) (rule assms(1))
  have l: "length ADC_I2C_ADDR = 6" "length ADC_CH_ADDR = 8"
    by (simp_all add: ADC_I2C_ADDR_def ADC_CH_ADDR_def)
  show ?thesis
    using assms(2,3) by (simp add: read_pin_def r l i2c_read_word_def Let_def)
qed

text \<open>
  Claim C2. The claim is that the selection of the chip is tried up to 3 times and that,
  when every attempt fails, \<open>read_pin\<close> returns 0 without the two conversion reads.
  In \<^verbatim>\<open>while (i2c_set_addr(...) && retry--)\<close> the counter starts at 3 and is
  decremented after it is tested, so a fourth attempt is made and a fourth failure
  leaves \<open>retry = -1\<close>, which \<^verbatim>\<open>if (retry)\<close> takes for success:
  \<^item> when all four selections fail, both reads are made and their code is returned;
  \<^item> when the fourth selection succeeds, \<open>retry\<close> is 0 and 0 is returned with no read;
  \<^item> when the first selection succeeds, the two reads are made, as intended.
\<close>

theorem read_pin_retry_defect:
  "read_pin (bus_select_after 4 0xF0FF) 3 (pin ''CON1.1'' 1 CHIP_ADC0 0) []
     = Inr (4095, [I2C_Set_Addr 3 8, Usleep 100, I2C_Set_Addr 3 8, Usleep 100,
                   I2C_Set_Addr 3 8, Usleep 100, I2C_Set_Addr 3 8,
                   I2C_Read_Word 3 136, I2C_Read_Word 3 136])
   \<and> read_pin (bus_select_after 3 0xF0FF) 3 (pin ''CON1.1'' 1 CHIP_ADC0 0) []
     = Inr (0, [I2C_Set_Addr 3 8, Usleep 100, I2C_Set_Addr 3 8, Usleep 100,
                I2C_Set_Addr 3 8, Usleep 100, I2C_Set_Addr 3 8])
   \<and> read_pin (bus_select_after 0 0xF0FF) 3 (pin ''CON1.1'' 1 CHIP_ADC0 0) []
     = Inr (4095, [I2C_Set_Addr 3 8, I2C_Read_Word 3 136, I2C_Read_Word 3 136])"
  by code_simp

section \<open>Initialisation\<close>

text \<open>The presence check answers 0 or 1; it answers 0 as soon as one chip's read is
  negative, and 1 when no read is.\<close>

lemma check_addrs_result:
  "fst (check_addrs bus fd as tr) = 0 \<or> fst (check_addrs bus fd as tr) = 1"
  by (induction as arbitrary: tr) (auto simp: Let_def split: prod.splits)

lemma check_addrs_one_silent:
  assumes "\<And>tr'. bus (tr' @ [I2C_Read_Word fd a]) <s 0" and "a \<in> set as"
  shows "fst (check_addrs bus fd as tr) = 0"
  using assms(2)
proof (induction as arbitrary: tr)
  case Nil
  then show ?case by simp
next
  case (Cons b bs)
  show ?case
  proof (cases "bus (tr @ [I2C_Set_Addr fd b, I2C_Read_Word fd b]) <s 0")
    case True
    then show ?thesis by (simp add: i2c_set_addr_def i2c_read_word_def)
  next
    case False
    with assms(1) [of "tr @ [I2C_Set_Addr fd b]"] have "b \<noteq> a" by auto
    with Cons.prems have "a \<in> set bs" by simp
    with False Cons.IH show ?thesis by (simp add: i2c_set_addr_def i2c_read_word_def)
  qed
qed

lemma check_addrs_all_respond:
  assumes "\<And>tr' a. \<not> bus (tr' @ [I2C_Read_Word fd a]) <s 0"
  shows "fst (check_addrs bus fd as tr) = 1"
proof (induction as arbitrary: tr)
  case Nil
  then show ?case by simp
next
  case (Cons b bs)
  have "\<not> bus (tr @ [I2C_Set_Addr fd b, I2C_Read_Word fd b]) <s 0"
    using assms [of "tr @ [I2C_Set_Addr fd b]" b] by simp
  with Cons.IH show ?case by (simp add: i2c_set_addr_def i2c_read_word_def)
qed

text \<open>With the node open, \<open>adc_board_init\<close> returns \<open>- 1\<close> after closing the handle
  when the check fails, and the handle when the check passes.\<close>

lemma adc_board_init_presence_fails:
  assumes "\<not> bus (tr @ [I2C_Open node]) <s 0"
    and "check_devices bus (bus (tr @ [I2C_Open node])) (tr @ [I2C_Open node]) = (0, tr2)"
  shows "adc_board_init bus node tr =
           (- 1, tr2 @ [Printf (''Can not found adc board. i2c_dev = '' @ node @ [CHR 0x0A]),
                        Close (bus (tr @ [I2C_Open node]))])"
  using assms by (simp add: adc_board_init_def i2c_open_def close_def printf_def)

lemma adc_board_init_present:
  assumes "\<not> bus (tr @ [I2C_Open node]) <s 0"
    and "check_devices bus (bus (tr @ [I2C_Open node])) (tr @ [I2C_Open node]) = (1, tr2)"
  shows "adc_board_init bus node tr = (bus (tr @ [I2C_Open node]), tr2)"
  using assms by (simp add: adc_board_init_def i2c_open_def)

text \<open>When the node cannot be opened the result is 0, for every transport.\<close>

lemma adc_board_init_open_fails:
  "bus (tr @ [I2C_Open node]) <s 0 \<Longrightarrow> adc_board_init bus node tr = (0, tr @ [I2C_Open node])"
  by (simp add: adc_board_init_def i2c_open_def)

text \<open>
  Claim C1. The claim is that \<open>adc_board_init\<close> returns \<open>- 1\<close> when the device node
  cannot be opened, as it does when the presence check fails. On a transport whose
  \<open>i2c_open\<close> fails with \<open>- 1\<close>, the code returns 0: the first \<^verbatim>\<open>return\<close> of the
  function is \<^verbatim>\<open>return 0\<close>, and the caller in lib\_main.c, which tests
  \<^verbatim>\<open>adc_board_init (...) < 0\<close>, does not see the failure.
\<close>

theorem adc_board_init_open_failure:
  "adc_board_init (bus_const (- 1)) ''/dev/i2c-0'' [] = (0, [I2C_Open ''/dev/i2c-0''])"
  by code_simp


section \<open>Case of the header name\<close>

lemma toupper_letter: "is_letter c \<Longrightarrow> is_letter (toupper c)"
  by (auto simp: is_letter_def toupper_def Let_def)

lemma tolower_letter: "is_letter c \<Longrightarrow> is_letter (tolower c)"
  by (auto simp: is_letter_def tolower_def Let_def)

lemma toupper_other: "\<not> is_letter c \<Longrightarrow> toupper c = c"
  by (auto simp: is_letter_def toupper_def Let_def)

lemma tolower_other: "\<not> is_letter c \<Longrightarrow> tolower c = c"
  by (auto simp: is_letter_def tolower_def Let_def)

lemma toupper_idem: "toupper (toupper c) = toupper c"
  by (auto simp: toupper_def Let_def)

lemma toupper_tolower: "toupper (tolower c) = toupper c"
proof (cases "65 \<le> (of_char c :: nat) \<and> (of_char c :: nat) \<le> 90")
  case True
  then have "toupper (tolower c) = char_of (of_char c :: nat)"
    by (simp add: toupper_def tolower_def Let_def)
  moreover have "toupper c = c" using True by (simp add: toupper_def)
  ultimately show ?thesis by simp
next
  case False
  then have "tolower c = c" by (auto simp: tolower_def Let_def)
  then show ?thesis by simp
qed

lemma case_change_toupper: "case_change toupper"
  by (simp add: case_change_def toupper_letter toupper_other toupper_idem)

lemma case_change_tolower: "case_change tolower"
  by (simp add: case_change_def tolower_letter tolower_other toupper_tolower)

lemma case_change_fixed:
  assumes "case_change f" and "\<not> is_letter k"
  shows "f c = k \<longleftrightarrow> c = k"
proof (cases "is_letter c")
  case True
  then have "is_letter (f c)" using assms(1) by (simp add: case_change_def)
  with True assms(2) show ?thesis by auto
next
  case False
  then have "f c = c" using assms(1) by (simp add: case_change_def)
  then show ?thesis by simp
qed

lemma not_letter_chars:
  "\<not> is_letter (CHR 0x00)" "\<not> is_letter CHR ''.''" "\<not> is_letter CHR '' ''"
  "\<not> is_letter CHR ''-''" "\<not> is_letter CHR ''+''"
  "\<not> is_letter (CHR 0x09)" "\<not> is_letter (CHR 0x0A)" "\<not> is_letter (CHR 0x0B)"
  "\<not> is_letter (CHR 0x0C)" "\<not> is_letter (CHR 0x0D)"
  by (simp_all add: is_letter_def)

lemma isspace_case_change: "case_change f \<Longrightarrow> isspace (f c) = isspace c"
  by (simp add: isspace_def case_change_fixed not_letter_chars)

lemma isdigit_not_letter: "isdigit c \<Longrightarrow> \<not> is_letter c"
  by (auto simp: isdigit_def is_letter_def Let_def)

lemma isdigit_case_change: "case_change f \<Longrightarrow> isdigit (f c) = isdigit c"
  by (metis case_change_def isdigit_not_letter)

lemma isdigit_case_change_id: "case_change f \<Longrightarrow> isdigit c \<Longrightarrow> f c = c"
  by (metis case_change_def isdigit_not_letter)

lemma atoi_digits_case_change:
  "case_change f \<Longrightarrow> atoi_digits acc (map f s) = atoi_digits acc s"
proof (induction s arbitrary: acc)
  case Nil
  then show ?case by simp
next
  case (Cons c cs)
  then show ?case
    by (cases "isdigit c") (simp_all add: isdigit_case_change isdigit_case_change_id)
qed

lemma atoi_case_change:
  assumes "case_change f"
  shows "atoi (map f s) = atoi s"
proof -
  have d: "dropWhile isspace (map f s) = map f (dropWhile isspace s)"
    using assms by (simp add: dropWhile_map comp_def isspace_case_change)
  show ?thesis
  proof (cases "dropWhile isspace s")
    case Nil
    show ?thesis unfolding atoi_def d Nil by simp
  next
    case (Cons c cs)
    have "atoi_digits 0 (f c # map f cs) = atoi_digits 0 (c # cs)"
      using atoi_digits_case_change [OF assms, of 0 "c # cs"] by simp
    then show ?thesis
      unfolding atoi_def d Cons using assms
      by (simp add: case_change_fixed not_letter_chars atoi_digits_case_change
          del: atoi_digits.simps)
  qed
qed

lemma strlen_case_change:
  assumes "case_change f"
  shows "strlen (map f s) = strlen s"
    and "take (strlen (map f s)) (map f s) = map f (take (strlen s) s)"
proof -
  have "takeWhile (\<lambda>c. c \<noteq> CHR 0x00) (map f s) = map f (takeWhile (\<lambda>c. c \<noteq> CHR 0x00) s)"
    using assms by (simp add: takeWhile_map comp_def case_change_fixed not_letter_chars)
  then show a: "strlen (map f s) = strlen s" by (simp add: strlen_def)
  show "take (strlen (map f s)) (map f s) = map f (take (strlen s) s)"
    by (simp add: a take_map)
qed

lemma strtok_case_change:
  assumes "\<And>c. f c \<in> set delim \<longleftrightarrow> c \<in> set delim"
  shows "strtok (map f s) delim = (map_option (map f) (fst (strtok s delim)), map f (snd (strtok s delim)))"
  using assms
  by (simp add: strtok_def Let_def dropWhile_map takeWhile_map comp_def drop_map)

lemma toupperstr_case_change: "case_change f \<Longrightarrow> toupperstr (map f s) = toupperstr s"
  by (simp add: toupperstr_def case_change_def)

lemma resolve_name_case_change:
  assumes "case_change f"
  shows "resolve_name (map f h) = resolve_name h"
proof -
  have dot: "\<And>c. f c \<in> set ''.'' \<longleftrightarrow> c \<in> set ''.''"
    using assms by (simp add: case_change_fixed not_letter_chars)
  have sp: "\<And>c. f c \<in> set '' '' \<longleftrightarrow> c \<in> set '' ''"
    using assms by (simp add: case_change_fixed not_letter_chars)
  have up: "\<And>t. map_option toupperstr (map_option (map f) t) = map_option toupperstr t"
    using assms by (simp add: option.map_comp comp_def toupperstr_case_change)
  have at: "\<And>t. (case map_option (map f) t of None \<Rightarrow> 0 | Some s \<Rightarrow> atoi s)
              = (case t of None \<Rightarrow> 0 | Some s \<Rightarrow> atoi s)"
    using assms by (simp add: atoi_case_change split: option.splits)
  show ?thesis
    unfolding resolve_name_def
    by (simp only: strlen_case_change(1) [OF assms] take_map strtok_case_change [OF dot]
        strtok_case_change [OF sp] Let_def split_def fst_conv snd_conv up at)
qed

text \<open>
  Claim C7. For every name \<open>h\<close> (header and pin number), the lower-case and the
  upper-case spelling of \<open>h\<close> resolve to the same pointer and count (lines 384 to 393 of
  \<open>adc_board_read\<close>, which put the header part in upper case before \<open>header_info\<close>
  compares it), and \<open>adc_board_read\<close> gives the same result on both: the same return
  value, readings, count and bus calls, for every transport.
\<close>

theorem adc_board_read_case_insensitive:
  "resolve_name (tolowerstr h) = resolve_name (toupperstr h)
   \<and> adc_board_read bus fd (Some (tolowerstr h)) read_value cnt tr
       = adc_board_read bus fd (Some (toupperstr h)) read_value cnt tr"
proof -
  have "resolve_name (tolowerstr h) = resolve_name (toupperstr h)"
    by (simp add: tolowerstr_def toupperstr_def resolve_name_case_change
        case_change_toupper case_change_tolower)
  then show ?thesis by (simp add: adc_board_read_def)
qed

theorem adc_board_read_case_insensitive_witness:
  "resolve_name ''con1.5'' = resolve_name ''CON1.5''
   \<and> adc_board_read (bus_replies 3 0 0xF0FF) 3 (Some ''con1.5'') [0] 0 []
       = adc_board_read (bus_replies 3 0 0xF0FF) 3 (Some ''CON1.5'') [0] 0 []"
proof -
  have l: "tolowerstr ''Con1.5'' = ''con1.5''" by code_simp
  have u: "toupperstr ''Con1.5'' = ''CON1.5''" by code_simp
  show ?thesis
    using adc_board_read_case_insensitive [of "''Con1.5''" "bus_replies 3 0 0xF0FF" 3 "[0]" 0 "[]"]
    unfolding l u .
qed



section \<open>Range of the readings\<close>

lemma read_pin_le: "read_pin bus fd info tr = Inr (v, tr1) \<Longrightarrow> v \<le> 4095"
  by (auto simp: read_pin_def Let_def conversion_code_le split: if_splits prod.splits)

lemma ucast_code_le: "(v :: c_int) \<le> 4095 \<Longrightarrow> (ucast v :: c_ushort) \<le> 4095"
proof -
  assume a: "v \<le> 4095"
  then have "unat v \<le> 4095" by (simp add: word_le_nat_alt)
  then have "unat (ucast v :: c_ushort) \<le> 4095"
    by (simp add: unsigned_ucast_eq take_bit_nat_eq_self)
  then show ?thesis by (simp add: word_le_nat_alt)
qed

lemma reading_bounds:
  assumes "read_pin bus fd info tr = Inr (v, tr1)"
  shows "0 \<le> sint (convert_to_mv (ucast v))" and "sint (convert_to_mv (ucast v)) \<le> 4995"
  using convert_to_mv_bounds [OF ucast_code_le [OF read_pin_le [OF assms]]] by simp_all

lemma read_pins_invariant:
  "read_pins bus fd p i n rv tr = Inr (rv', tr') \<Longrightarrow>
     length rv' = length rv
     \<and> (0 < n \<longrightarrow> i + n \<le> length rv)
     \<and> (\<forall>j. i \<le> j \<and> j < i + n \<longrightarrow> 0 \<le> sint (rv' ! j) \<and> sint (rv' ! j) \<le> 4995)
     \<and> (\<forall>j < i. rv' ! j = rv ! j)"
proof (induction n arbitrary: p i rv tr)
  case 0
  then show ?case by simp
next
  case (Suc n)
  from Suc.prems obtain info v tr1 where
    d: "deref p = Inr info" and r: "read_pin bus fd info tr = Inr (v, tr1)"
    and i: "i < length rv"
    and rest: "read_pins bus fd (fst p, snd p + 1) (i + 1) n
                 (rv[i := convert_to_mv (ucast v)]) tr1 = Inr (rv', tr')"
    by (auto split: sum.splits if_splits)
  let ?m = "convert_to_mv (ucast v)"
  from Suc.IH [OF rest] have
    len: "length rv' = length rv"
    and fit: "0 < n \<longrightarrow> i + 1 + n \<le> length rv"
    and new: "\<forall>j. i + 1 \<le> j \<and> j < i + 1 + n \<longrightarrow> 0 \<le> sint (rv' ! j) \<and> sint (rv' ! j) \<le> 4995"
    and old: "\<forall>j < i + 1. rv' ! j = rv[i := ?m] ! j"
    by simp_all
  from old i have here: "rv' ! i = ?m" by simp
  have b: "0 \<le> sint ?m \<and> sint ?m \<le> 4995" using reading_bounds [OF r] by simp
  have "\<forall>j. i \<le> j \<and> j < i + Suc n \<longrightarrow> 0 \<le> sint (rv' ! j) \<and> sint (rv' ! j) \<le> 4995"
  proof (intro allI impI)
    fix j assume j: "i \<le> j \<and> j < i + Suc n"
    show "0 \<le> sint (rv' ! j) \<and> sint (rv' ! j) \<le> 4995"
    proof (cases "j = i")
      case True
      then show ?thesis using here b by simp
    next
      case False
      with j have "i + 1 \<le> j \<and> j < i + 1 + n" by simp
      with new show ?thesis by blast
    qed
  qed
  moreover have "\<forall>j < i. rv' ! j = rv ! j" using old by simp
  moreover have "i + Suc n \<le> length rv" using fit i by (cases n) simp_all
  ultimately show ?case using len by simp
qed

text \<open>
  Claim C10. Whenever \<open>adc_board_read\<close> returns 1, every element of \<open>read_value\<close>
  below the count it stores is an integer between 0 and 4995, for every transport, that
  is for every sequence of bus responses: a negative read result is replaced by 0, the
  code is masked to 12 bits, and codes up to 4095 convert to at most 4995.
\<close>

theorem adc_board_read_values_in_range:
  "adc_board_read bus fd h_name read_value cnt tr = Inr (1, read_value', cnt', tr') \<Longrightarrow>
     \<forall>i < unat cnt'. i < length read_value'
        \<and> 0 \<le> sint (read_value' ! i) \<and> sint (read_value' ! i) \<le> 4995"
proof -
  assume a: "adc_board_read bus fd h_name read_value cnt tr = Inr (1, read_value', cnt', tr')"
  then obtain h p pin_cnt where
    "h_name = Some h" and "resolve_name h = Inr (p, pin_cnt)" and pos: "pin_cnt \<noteq> 0"
    and loop: "read_pins bus fd p 0 pin_cnt read_value tr = Inr (read_value', tr')"
    and c: "cnt' = word_of_nat pin_cnt"
    by (auto simp: adc_board_read_def split: option.splits if_splits sum.splits prod.splits)
  from read_pins_invariant [OF loop] pos have
    len: "pin_cnt \<le> length read_value'"
    and rng: "\<forall>j. j < pin_cnt \<longrightarrow> 0 \<le> sint (read_value' ! j) \<and> sint (read_value' ! j) \<le> 4995"
    by simp_all
  have "unat cnt' \<le> pin_cnt" unfolding c by (simp add: unat_of_nat)
  with len rng show ?thesis by auto
qed

theorem adc_board_read_values_in_range_witness:
  "adc_board_read (bus_replies 3 0 0xF0FF) 3 (Some ''p3.5'') [7, 7] 7 []
      = Inr (1, [4995, 7], 1, [I2C_Set_Addr 3 25, I2C_Read_Word 3 152, I2C_Read_Word 3 152])
   \<and> (0 :: nat) < unat (1 :: c_int)
   \<and> 0 \<le> sint ([4995, 7 :: c_int] ! 0) \<and> sint ([4995, 7 :: c_int] ! 0) \<le> 4995"
proof -
  have e: "adc_board_read (bus_replies 3 0 0xF0FF) 3 (Some ''p3.5'') [7, 7] 7 []
      = Inr (1, [4995, 7], 1, [I2C_Set_Addr 3 25, I2C_Read_Word 3 152, I2C_Read_Word 3 152])"
    by code_simp
  have z: "(0 :: nat) < unat (1 :: c_int)" by simp
  from adc_board_read_values_in_range [OF e] z
  have "0 \<le> sint ([4995, 7 :: c_int] ! 0) \<and> sint ([4995, 7 :: c_int] ! 0) \<le> 4995"
    by blast
  with e z show ?thesis by blast
qed

section \<open>Unknown header names\<close>

text \<open>Where the name fits the buffer and has a header part that, in upper case, starts
  with none of the prefixes, \<open>adc_board_read\<close> on a non-zero handle returns 0, leaves the
  array and the count as they were and makes no call on the bus; \<open>header_info\<close>
  itself answers every such header with count 0.\<close>

lemma adc_board_read_unknown_header:
  assumes "fd \<noteq> 0" and "strlen h < 10"
    and "strtok (take (strlen h) h) ''.'' = (Some t, rest)"
    and "\<forall>(pre, hdr) \<in> set header_tables. \<not> strncmp_eq pre (toupperstr t) (strlen pre)"
  shows "adc_board_read bus fd (Some h) read_value cnt tr = Inr (0, read_value, cnt, tr)"
proof -
  have "resolve_name h = Inr ((HEADER_CON1, 0), 0)"
    using assms(2,3) header_info_no_match [OF assms(4)]
    by (simp add: resolve_name_def split_def)
  then show ?thesis using assms(1) by (simp add: adc_board_read_def)
qed

lemma adc_board_read_XYZ:
  "fd \<noteq> 0 \<Longrightarrow> adc_board_read bus fd (Some ''XYZ'') read_value cnt tr = Inr (0, read_value, cnt, tr)"
proof -
  have "resolve_name ''XYZ'' = Inr ((HEADER_CON1, 0), 0)" by code_simp
  then show "fd \<noteq> 0 \<Longrightarrow> ?thesis" by (simp add: adc_board_read_def)
qed

text \<open>
  Claim C8. The claim is that every header name matching no known prefix makes the
  resolver answer with count 0 and \<open>adc_board_read\<close> return 0, a reportable condition
  and not a fatal one. \<open>header_info\<close> does so (\<open>header_info_no_match\<close>), and so does
  \<open>adc_board_read\<close> on names like \<^verbatim>\<open>XYZ\<close>. But the empty name has no header part:
  \<^verbatim>\<open>strtok\<close> returns \<^verbatim>\<open>NULL\<close>, which \<open>adc_board_read\<close> tests before
  \<^verbatim>\<open>toupperstr\<close> and then passes to \<open>header_info\<close>, where \<^verbatim>\<open>strncmp\<close>
  dereferences it. And an unknown name of 10 characters or more is copied past the end
  of \<^verbatim>\<open>char str[10]\<close>.
\<close>

theorem adc_board_read_unknown_name_faults:
  "resolve_name [] = Inl Null_Pointer
   \<and> adc_board_read (bus_const 0) 3 (Some []) [0] 0 [] = Inl Null_Pointer
   \<and> resolve_name ''XYZXYZXYZXYZ'' = Inl Out_Of_Bounds
   \<and> adc_board_read (bus_const 0) 3 (Some ''XYZXYZXYZXYZ'') [0] 0 [] = Inl Out_Of_Bounds"
  by code_simp

end
